theory Spec2Isabelle
  imports Complex_Main "HOL-Library.Log_Nat" "HOL-Library.Word"
begin

section \<open>Python values used by the two scripts\<close>

text \<open>
  Both scripts are Python 3. Integers are unbounded (\<open>int\<close>); a Python \<open>float\<close> is an
  IEEE 754 binary64 value. A finite float is represented by the rational number it denotes,
  the two infinities and NaN are separate constructors. The sign of zero is not represented:
  no operation of the scripts distinguishes \<open>-0.0\<close> from \<open>0.0\<close> (comparisons treat them as equal
  and a division by either raises).
\<close>

datatype pyfloat = Finite rat | PosInf | NegInf | NaN

datatype py_error =
    OverflowError
  | ZeroDivisionError
  | ValueError
  | FileNotFoundError
  | IsADirectoryError
  | UnidentifiedImageError
  | OSError
  | KeyError
  | SystemExit int

type_synonym 'a result = "py_error + 'a"

definition bind :: "'a result \<Rightarrow> ('a \<Rightarrow> 'b result) \<Rightarrow> 'b result" where
  "bind r f = (case r of Inl e \<Rightarrow> Inl e | Inr v \<Rightarrow> f v)"

subsection \<open>Rounding\<close>

text \<open>\<open>round(x)\<close> of a float, and the rounding of every float operation: to nearest, ties to even.\<close>

definition round_half_even :: "rat \<Rightarrow> int" where
  "round_half_even x =
     (let f = \<lfloor>x\<rfloor>; d = x - of_int f
      in if d < 1 / 2 then f else if 1 / 2 < d then f + 1 else if even f then f else f + 1)"

text \<open>The binary exponent of a positive rational: \<open>2 powi ilog2 x \<le> x < 2 powi (ilog2 x + 1)\<close>.\<close>

definition ilog2 :: "rat \<Rightarrow> int" where
  "ilog2 x = (case quotient_of x of (p, q) \<Rightarrow>
      (let d = bitlen p - bitlen q in if 2 powi d \<le> x then d else d - 1))"

text \<open>
  The binary64 number nearest to a rational: 53 significant bits, exponent at least \<open>-1022\<close>
  (below that the spacing stays \<open>2 powi (-1074)\<close>: gradual underflow). The exponent is not
  bounded above here; \<open>to_float\<close> turns a result beyond the largest double into an infinity.
\<close>

definition fl :: "rat \<Rightarrow> rat" where
  "fl x = (if x = 0 then 0 else
     (let e = max (ilog2 \<bar>x\<bar>) (- 1022); ulp = 2 powi (e - 52)
      in of_int (round_half_even (x / ulp)) * ulp))"

definition DBL_MAX :: rat where
  "DBL_MAX = (2 ^ 53 - 1) * 2 ^ 971"

definition to_float :: "rat \<Rightarrow> pyfloat" where
  "to_float x = (let y = fl x in
     if DBL_MAX < y then PosInf else if y < - DBL_MAX then NegInf else Finite y)"

subsection \<open>Comparison, \<open>min\<close> and \<open>max\<close>\<close>

fun float_less :: "pyfloat \<Rightarrow> pyfloat \<Rightarrow> bool" where
  "float_less (Finite a) (Finite b) = (a < b)"
| "float_less (Finite a) PosInf = True"
| "float_less NegInf (Finite b) = True"
| "float_less NegInf PosInf = True"
| "float_less _ _ = False"

text \<open>
  \<open>min(a, b)\<close> keeps \<open>a\<close> unless \<open>b < a\<close>; \<open>max(a, b)\<close> keeps \<open>a\<close> unless \<open>b > a\<close>.
  A NaN compares false with everything, so it never replaces the first argument.
\<close>

definition py_min :: "pyfloat \<Rightarrow> pyfloat \<Rightarrow> pyfloat" where
  "py_min a b = (if float_less b a then b else a)"

definition py_max :: "pyfloat \<Rightarrow> pyfloat \<Rightarrow> pyfloat" where
  "py_max a b = (if float_less a b then b else a)"

subsection \<open>Arithmetic\<close>

fun float_sgn :: "pyfloat \<Rightarrow> int" where
  "float_sgn (Finite a) = (if a = 0 then 0 else if 0 < a then 1 else - 1)"
| "float_sgn PosInf = 1"
| "float_sgn NegInf = - 1"
| "float_sgn NaN = 0"

fun float_mul :: "pyfloat \<Rightarrow> pyfloat \<Rightarrow> pyfloat" where
  "float_mul (Finite a) (Finite b) = to_float (a * b)"
| "float_mul NaN _ = NaN"
| "float_mul _ NaN = NaN"
| "float_mul a b =
     (let s = float_sgn a * float_sgn b
      in if s = 0 then NaN else if 0 < s then PosInf else NegInf)"

fun float_sub :: "pyfloat \<Rightarrow> pyfloat \<Rightarrow> pyfloat" where
  "float_sub (Finite a) (Finite b) = to_float (a - b)"
| "float_sub NaN _ = NaN"
| "float_sub _ NaN = NaN"
| "float_sub PosInf PosInf = NaN"
| "float_sub NegInf NegInf = NaN"
| "float_sub PosInf _ = PosInf"
| "float_sub NegInf _ = NegInf"
| "float_sub (Finite a) PosInf = NegInf"
| "float_sub (Finite a) NegInf = PosInf"

text \<open>\<open>a / b\<close> on floats raises for a zero divisor.\<close>

fun float_div :: "pyfloat \<Rightarrow> pyfloat \<Rightarrow> pyfloat result" where
  "float_div a (Finite b) =
     (if b = 0 then Inl ZeroDivisionError
      else case a of
          Finite x \<Rightarrow> Inr (to_float (x / b))
        | NaN \<Rightarrow> Inr NaN
        | PosInf \<Rightarrow> Inr (if 0 < b then PosInf else NegInf)
        | NegInf \<Rightarrow> Inr (if 0 < b then NegInf else PosInf))"
| "float_div a NaN = Inr NaN"
| "float_div (Finite x) b = Inr (Finite 0)"
| "float_div a b = Inr NaN"

text \<open>\<open>float(n)\<close>, applied implicitly when an int meets a float: correctly rounded, raising
  when the int is too large for a double.\<close>

definition float_of_int :: "int \<Rightarrow> pyfloat result" where
  "float_of_int n = (let y = fl (of_int n) in
     if DBL_MAX < \<bar>y\<bar> then Inl OverflowError else Inr (Finite y))"

definition int_mul_float :: "int \<Rightarrow> pyfloat \<Rightarrow> pyfloat result" where
  "int_mul_float n x = bind (float_of_int n) (\<lambda>f. Inr (float_mul f x))"

text \<open>\<open>a / b\<close> on ints: the correctly rounded quotient.\<close>

definition int_truediv :: "int \<Rightarrow> int \<Rightarrow> pyfloat result" where
  "int_truediv a b =
     (if b = 0 then Inl ZeroDivisionError
      else let y = fl (of_int a / of_int b) in
        if DBL_MAX < \<bar>y\<bar> then Inl OverflowError else Inr (Finite y))"

text \<open>\<open>round(x)\<close> with one argument returns an int and raises on an infinity or a NaN.\<close>

fun py_round :: "pyfloat \<Rightarrow> int result" where
  "py_round (Finite x) = Inr (round_half_even x)"
| "py_round NaN = Inl ValueError"
| "py_round _ = Inl OverflowError"

section \<open>fix\_icon\_padding.py: the geometry\<close>

text \<open>\<open>margin = max(0.0, min(45.0, args.margin_pct)) / 100.0\<close>\<close>

definition margin_of :: "pyfloat \<Rightarrow> pyfloat result" where
  "margin_of margin_pct =
     float_div (py_max (Finite 0) (py_min (Finite 45) margin_pct)) (Finite 100)"

text \<open>\<open>inset = int(round(canvas_size * (1.0 - 2.0 * margin)))\<close>\<close>

definition inset_of :: "int \<Rightarrow> pyfloat \<Rightarrow> int result" where
  "inset_of canvas_size margin =
     bind (int_mul_float canvas_size (float_sub (Finite 1) (float_mul (Finite 2) margin)))
       py_round"

text \<open>Lines 25 and 26 together: the inset for a canvas side and a \<open>--margin_pct\<close> value.\<close>

definition inset_for :: "int \<Rightarrow> pyfloat \<Rightarrow> int result" where
  "inset_for canvas_size margin_pct = bind (margin_of margin_pct) (inset_of canvas_size)"

text \<open>\<open>scale = min(inset / im.width, inset / im.height)\<close>\<close>

definition scale_of :: "int \<Rightarrow> int \<Rightarrow> int \<Rightarrow> pyfloat result" where
  "scale_of inset width height =
     bind (int_truediv inset width) (\<lambda>a.
     bind (int_truediv inset height) (\<lambda>b.
     Inr (py_min a b)))"

text \<open>\<open>max(1, int(round(side * scale)))\<close>\<close>

definition new_side :: "int \<Rightarrow> pyfloat \<Rightarrow> int result" where
  "new_side side scale =
     bind (int_mul_float side scale) (\<lambda>p.
     bind (py_round p) (\<lambda>r.
     Inr (max 1 r)))"

text \<open>Lines 32 to 39 of \<open>main\<close>: the scale, the resampled size and the paste offsets
  (\<open>dest_x\<close> and \<open>dest_y\<close> are the source's \<open>x\<close> and \<open>y\<close>).\<close>

record placement =
  scale :: pyfloat
  new_w :: int
  new_h :: int
  dest_x :: int
  dest_y :: int

definition place :: "int \<Rightarrow> int \<Rightarrow> int \<Rightarrow> int \<Rightarrow> placement result" where
  "place canvas_size inset width height =
     bind (scale_of inset width height) (\<lambda>s.
     bind (new_side width s) (\<lambda>w.
     bind (new_side height s) (\<lambda>h.
     Inr \<lparr>scale = s, new_w = w, new_h = h,
          dest_x = (canvas_size - w) div 2, dest_y = (canvas_size - h) div 2\<rparr>)))"

section \<open>Images and files\<close>

text \<open>
  Both scripts call Pillow for every image operation. An image is represented by the
  sequence of Pillow calls that produced it; its mode and size follow Pillow's contract for
  each call. Pillow keeps the two sides of an image in C \<open>int\<close>s, so a side is a 32-bit word
  read as a signed number. The pixel values produced by decoding, mode conversion, Lanczos
  resampling and alpha compositing are not modelled.
\<close>

datatype raster =
    Pixels string "32 word" "32 word" nat
  | Convert string raster
  | New string "32 word" "32 word" "8 word list"
  | Resize raster "32 word" "32 word"
  | AlphaComposite raster raster int int
  | PasteMask raster raster int int raster

text \<open>
  \<open>Pixels mode xsize ysize k\<close>: decoded pixel data (\<open>k\<close> names the data);
  \<open>Convert mode im\<close>: \<open>im.convert(mode)\<close>;
  \<open>New mode xsize ysize color\<close>: \<open>Image.new(mode, (xsize, ysize), color)\<close>;
  \<open>Resize im xsize ysize\<close>: \<open>im.resize((xsize, ysize), LANCZOS)\<close>;
  \<open>AlphaComposite bg im x y\<close>: \<open>bg\<close> after \<open>bg.alpha_composite(im, dest=(x, y))\<close>;
  \<open>PasteMask bg im x y mask\<close>: \<open>bg\<close> after \<open>bg.paste(im, (x, y), mask)\<close>.
\<close>

fun mode_of :: "raster \<Rightarrow> string" where
  "mode_of (Pixels m xs ys k) = m"
| "mode_of (Convert m im) = m"
| "mode_of (New m xs ys c) = m"
| "mode_of (Resize im xs ys) = mode_of im"
| "mode_of (AlphaComposite bg im px py) = mode_of bg"
| "mode_of (PasteMask bg im px py msk) = mode_of bg"

fun width_of :: "raster \<Rightarrow> int" where
  "width_of (Pixels m xs ys k) = sint xs"
| "width_of (Convert m im) = width_of im"
| "width_of (New m xs ys c) = sint xs"
| "width_of (Resize im xs ys) = sint xs"
| "width_of (AlphaComposite bg im px py) = width_of bg"
| "width_of (PasteMask bg im px py msk) = width_of bg"

fun height_of :: "raster \<Rightarrow> int" where
  "height_of (Pixels m xs ys k) = sint ys"
| "height_of (Convert m im) = height_of im"
| "height_of (New m xs ys c) = sint ys"
| "height_of (Resize im xs ys) = sint ys"
| "height_of (AlphaComposite bg im px py) = height_of bg"
| "height_of (PasteMask bg im px py msk) = height_of bg"

definition INT_MAX :: int where
  "INT_MAX = 2 ^ 31 - 1"

text \<open>\<open>Image.new\<close> rejects a negative side, and a side that does not fit a C \<open>int\<close>.\<close>

definition Image_new :: "string \<Rightarrow> int \<Rightarrow> int \<Rightarrow> 8 word list \<Rightarrow> raster result" where
  "Image_new m w h color =
     (if w < 0 \<or> h < 0 then Inl ValueError
      else if INT_MAX < w \<or> INT_MAX < h then Inl OverflowError
      else Inr (New m (word_of_int w) (word_of_int h) color))"

text \<open>\<open>im.resize\<close> rejects a side below 1, and a side that does not fit a C \<open>int\<close>.\<close>

definition Image_resize :: "raster \<Rightarrow> int \<Rightarrow> int \<Rightarrow> raster result" where
  "Image_resize im w h =
     (if w \<le> 0 \<or> h \<le> 0 then Inl ValueError
      else if INT_MAX < w \<or> INT_MAX < h then Inl OverflowError
      else Inr (Resize im (word_of_int w) (word_of_int h)))"

subsection \<open>Pixels of a masked paste\<close>

text \<open>
  Pillow's \<open>paste\<close> with a mask blends every band of the destination with the pasted
  image, weighted by the mask's alpha band:
  \<open>out = DIV255(dst * (255 - mask) + src * mask)\<close>, where
  \<open>DIV255(a) = (((a + 128) >> 8) + (a + 128)) >> 8\<close>.
\<close>

definition DIV255 :: "nat \<Rightarrow> nat" where
  "DIV255 a = ((a + 128) div 256 + (a + 128)) div 256"

definition blend :: "8 word \<Rightarrow> 8 word \<Rightarrow> 8 word \<Rightarrow> 8 word" where
  "blend m dst src = of_nat (DIV255 (unat dst * (255 - unat m) + unat src * unat m))"

text \<open>The alpha band of a pixel is its last band.\<close>

definition alpha_band :: "8 word list \<Rightarrow> 8 word" where
  "alpha_band px = (case rev px of [] \<Rightarrow> 0 | a # _ \<Rightarrow> a)"

definition paste_pixel :: "8 word list \<Rightarrow> 8 word list \<Rightarrow> 8 word \<Rightarrow> 8 word list" where
  "paste_pixel dst src m = map (\<lambda>(d, s). blend m d s) (zip dst src)"

text \<open>
  The pixel of an image at column \<open>i\<close>, row \<open>j\<close>. The function \<open>lib\<close> gives the pixels of the
  images whose values are not modelled.
\<close>

fun pixel :: "(raster \<Rightarrow> int \<Rightarrow> int \<Rightarrow> 8 word list) \<Rightarrow> raster \<Rightarrow> int \<Rightarrow> int \<Rightarrow> 8 word list" where
  "pixel lib (New m xs ys c) i j = c"
| "pixel lib (PasteMask bg im px py msk) i j =
     (if px \<le> i \<and> i < px + width_of im \<and> py \<le> j \<and> j < py + height_of im
      then paste_pixel (pixel lib bg i j) (pixel lib im (i - px) (j - py))
             (alpha_band (pixel lib msk (i - px) (j - py)))
      else pixel lib bg i j)"
| "pixel lib im i j = lib im i j"

subsection \<open>The file system and the terminal\<close>

datatype content = Image raster | Junk

text \<open>
  \<open>files\<close>: the regular files and what they hold; \<open>dirs\<close>: the directories that exist
  (the intermediate directories \<open>os.makedirs\<close> creates on the way are not tracked);
  \<open>permitted p\<close>: the operating system lets the process create the directory or write the
  file at \<open>p\<close>; \<open>stdout\<close>: what has been printed, one entry for each \<open>print\<close>.
\<close>

record world =
  files :: "string \<rightharpoonup> content"
  dirs :: "string set"
  permitted :: "string \<Rightarrow> bool"
  stdout :: "string list"

definition print :: "string \<Rightarrow> world \<Rightarrow> world" where
  "print s w = w\<lparr>stdout := stdout w @ [s]\<rparr>"

definition path_exists :: "world \<Rightarrow> string \<Rightarrow> bool" where
  "path_exists w p = (case files w p of Some c \<Rightarrow> True | None \<Rightarrow> p \<in> dirs w)"

definition Image_open :: "world \<Rightarrow> string \<Rightarrow> raster result" where
  "Image_open w p =
     (case files w p of
        Some (Image im) \<Rightarrow> Inr im
      | Some Junk \<Rightarrow> Inl UnidentifiedImageError
      | None \<Rightarrow> if p \<in> dirs w then Inl IsADirectoryError else Inl FileNotFoundError)"

definition Image_save :: "raster \<Rightarrow> string \<Rightarrow> world \<Rightarrow> unit result \<times> world" where
  "Image_save im p w =
     (if permitted w p then (Inr (), w\<lparr>files := (files w)(p \<mapsto> Image im)\<rparr>)
      else (Inl OSError, w))"

text \<open>\<open>os.makedirs(p, exist_ok=True)\<close>\<close>

definition makedirs :: "string \<Rightarrow> world \<Rightarrow> unit result \<times> world" where
  "makedirs p w =
     (if p \<in> dirs w then (Inr (), w)
      else case files w p of
          Some c \<Rightarrow> (Inl OSError, w)
        | None \<Rightarrow>
            if permitted w p then (Inr (), w\<lparr>dirs := insert p (dirs w)\<rparr>)
            else (Inl OSError, w))"

text \<open>\<open>os.path.join(a, b)\<close> on a POSIX system.\<close>

definition path_join :: "string \<Rightarrow> string \<Rightarrow> string" where
  "path_join a b =
     (if b \<noteq> [] \<and> hd b = CHR ''/'' then b
      else if a = [] \<or> last a = CHR ''/'' then a @ b
      else a @ ''/'' @ b)"

section \<open>fix\_icon\_padding.py: \<open>main\<close>\<close>

text \<open>The parsed command line (\<open>input_path\<close> and \<open>output_path\<close> are \<open>args.input\<close> and
  \<open>args.output\<close>).\<close>

record args =
  input_path :: string
  output_path :: string
  canvas :: int
  margin_pct :: pyfloat
  bg_color :: string

text \<open>
  Lines 24 to 40 of \<open>main\<close>: the canvas with the resampled image composited on it.
  \<open>getcolor\<close> is \<open>ImageColor.getcolor(_, "RGBA")\<close>, which raises for a string that is not a
  colour.
\<close>

definition compose :: "(string \<Rightarrow> 8 word list option) \<Rightarrow> args \<Rightarrow> world \<Rightarrow> raster result" where
  "compose getcolor a w =
     (let canvas_size = canvas a in
      bind (inset_for canvas_size (margin_pct a)) (\<lambda>inset.
      bind (case getcolor (bg_color a) of None \<Rightarrow> Inl ValueError | Some c \<Rightarrow> Inr c) (\<lambda>color.
      bind (Image_new ''RGBA'' canvas_size canvas_size color) (\<lambda>bg.
      bind (Image_open w (input_path a)) (\<lambda>opened.
      let im = Convert ''RGBA'' opened in
      bind (place canvas_size inset (width_of im) (height_of im)) (\<lambda>p.
      bind (Image_resize im (new_w p) (new_h p)) (\<lambda>im_resized.
      Inr (AlphaComposite bg im_resized (dest_x p) (dest_y p)))))))))"

definition main :: "(string \<Rightarrow> 8 word list option) \<Rightarrow> args \<Rightarrow> world \<Rightarrow> unit result \<times> world" where
  "main getcolor a w =
     (case compose getcolor a w of
        Inl e \<Rightarrow> (Inl e, w)
      | Inr bg \<Rightarrow> Image_save bg (output_path a) w)"

text \<open>
  A run of the script: \<open>logo.png\<close> is a 500x300 RGB image, the command line is the one of the
  script's docstring, and \<open>#0B0F1A\<close> is the colour (11, 15, 26, 255).
\<close>

definition example_world :: world where
  "example_world =
     \<lparr>files = [''logo.png'' \<mapsto> Image (Pixels ''RGB'' 500 300 0)], dirs = {},
      permitted = (\<lambda>p. True), stdout = []\<rparr>"

definition example_args :: args where
  "example_args =
     \<lparr>input_path = ''logo.png'', output_path = ''logo_padded.png'', canvas = 1024,
      margin_pct = Finite (25 / 2), bg_color = ''#0B0F1A''\<rparr>"

definition example_getcolor :: "string \<Rightarrow> 8 word list option" where
  "example_getcolor s = (if s = ''#0B0F1A'' then Some [11, 15, 26, 255] else None)"

section \<open>generate\_app\_icons.py\<close>

text \<open>The size table. A Python dict keeps its insertion order, which is the order of the
  loops over it.\<close>

definition IOS_ICON_SIZES :: "(string \<times> (string \<times> int) list) list" where
  "IOS_ICON_SIZES =
     [(''iphone'',
        [(''Icon-20@1x.png'', 20),
         (''Icon-20@2x.png'', 40),
         (''Icon-20@3x.png'', 60),
         (''Icon-29@1x.png'', 29),
         (''Icon-29@2x.png'', 58),
         (''Icon-29@3x.png'', 87),
         (''Icon-40@1x.png'', 40),
         (''Icon-40@2x.png'', 80),
         (''Icon-40@3x.png'', 120),
         (''Icon-60@2x.png'', 120),
         (''Icon-60@3x.png'', 180)]),
      (''ipad'',
        [(''Icon-20@1x.png'', 20),
         (''Icon-20@2x.png'', 40),
         (''Icon-29@1x.png'', 29),
         (''Icon-29@2x.png'', 58),
         (''Icon-40@1x.png'', 40),
         (''Icon-40@2x.png'', 80),
         (''Icon-76@1x.png'', 76),
         (''Icon-76@2x.png'', 152),
         (''Icon-83.5@2x.png'', 167)]),
      (''appstore'',
        [(''AppIcon-1024.png'', 1024)])]"

text \<open>\<open>IOS_ICON_SIZES[category]\<close>\<close>

definition sizes_of :: "string \<Rightarrow> (string \<times> int) list result" where
  "sizes_of category =
     (case map_of IOS_ICON_SIZES category of None \<Rightarrow> Inl KeyError | Some sizes \<Rightarrow> Inr sizes)"

subsection \<open>Text\<close>

text \<open>The decimal text of an int, as an f-string formats it.\<close>

fun digits :: "nat \<Rightarrow> string" where
  "digits n =
     (if n < 10 then [char_of (48 + n)] else digits (n div 10) @ [char_of (48 + n mod 10)])"

declare digits.simps [simp del]

definition str :: "int \<Rightarrow> string" where
  "str n = (if n < 0 then CHR ''-'' # digits (nat (- n)) else digits (nat n))"

text \<open>\<open>s.upper()\<close> on ASCII text.\<close>

definition upper :: "string \<Rightarrow> string" where
  "upper s =
     map (\<lambda>c. if (97::nat) \<le> of_char c \<and> of_char c \<le> (122::nat)
              then char_of (of_char c - (32::nat)) else c) s"

text \<open>The characters outside ASCII that the script prints, in UTF-8.\<close>

definition check_mark :: string where
  "check_mark = [CHR 0xE2, CHR 0x9C, CHR 0x93]"

definition check_box :: string where
  "check_box = [CHR 0xE2, CHR 0x9C, CHR 0x85]"

definition folder :: string where
  "folder = [CHR 0xF0, CHR 0x9F, CHR 0x93, CHR 0x81]"

definition tee :: string where
  "tee = [CHR 0xE2, CHR 0x94, CHR 0x9C, CHR 0xE2, CHR 0x94, CHR 0x80, CHR 0xE2, CHR 0x94, CHR 0x80]"

definition elbow :: string where
  "elbow = [CHR 0xE2, CHR 0x94, CHR 0x94, CHR 0xE2, CHR 0x94, CHR 0x80, CHR 0xE2, CHR 0x94, CHR 0x80]"

definition quote :: string where
  "quote = [CHR 0x27]"

definition newline :: string where
  "newline = [CHR 0x0A]"

text \<open>The text of an exception, reduced to the name of its class.\<close>

fun exception_text :: "py_error \<Rightarrow> string" where
  "exception_text OverflowError = ''OverflowError''"
| "exception_text ZeroDivisionError = ''ZeroDivisionError''"
| "exception_text ValueError = ''ValueError''"
| "exception_text FileNotFoundError = ''FileNotFoundError''"
| "exception_text IsADirectoryError = ''IsADirectoryError''"
| "exception_text UnidentifiedImageError = ''UnidentifiedImageError''"
| "exception_text OSError = ''OSError''"
| "exception_text KeyError = ''KeyError''"
| "exception_text (SystemExit n) = str n"

subsection \<open>\<open>generate_icons\<close>\<close>

text \<open>Lines 82 to 90: the image saved for one table entry.\<close>

definition finish :: "string \<Rightarrow> raster \<Rightarrow> int \<Rightarrow> raster result" where
  "finish category resized side =
     (if category = ''appstore''
      then bind (Image_new ''RGB'' side side [255, 255, 255]) (\<lambda>background.
           Inr (PasteMask background resized 0 0 resized))
      else Inr resized)"

text \<open>The inner loop, lines 76 to 93.\<close>

fun write_icons ::
  "raster \<Rightarrow> string \<Rightarrow> string \<Rightarrow> (string \<times> int) list \<Rightarrow> nat \<Rightarrow> world \<Rightarrow> nat result \<times> world"
where
  "write_icons img category category_dir [] total_icons w = (Inr total_icons, w)"
| "write_icons img category category_dir ((filename, side) # rest) total_icons w =
     (let output_path = path_join category_dir filename in
      case bind (Image_resize img side side) (\<lambda>resized. finish category resized side) of
        Inl e \<Rightarrow> (Inl e, w)
      | Inr saved \<Rightarrow>
          (case Image_save saved output_path w of
             (Inl e, w') \<Rightarrow> (Inl e, w')
           | (Inr _, w') \<Rightarrow>
               write_icons img category category_dir rest (total_icons + 1)
                 (print (''  '' @ check_mark @ '' '' @ filename @ '' ('' @ str side @ ''x''
                           @ str side @ '')'') w')))"

text \<open>The outer loop, lines 70 to 93.\<close>

fun write_categories ::
  "raster \<Rightarrow> string \<Rightarrow> (string \<times> (string \<times> int) list) list \<Rightarrow> nat \<Rightarrow> world
     \<Rightarrow> nat result \<times> world"
where
  "write_categories img output_dir [] total_icons w = (Inr total_icons, w)"
| "write_categories img output_dir ((category, sizes) # rest) total_icons w =
     (let category_dir = path_join output_dir category in
      case makedirs category_dir w of
        (Inl e, w') \<Rightarrow> (Inl e, w')
      | (Inr _, w') \<Rightarrow>
          (case write_icons img category category_dir sizes total_icons
                  (print (newline @ ''Generating '' @ upper category @ '' icons:'') w') of
             (Inl e, w'') \<Rightarrow> (Inl e, w'')
           | (Inr n, w'') \<Rightarrow> write_categories img output_dir rest n w''))"

text \<open>Lines 95 to 102.\<close>

definition summary :: "string \<Rightarrow> nat \<Rightarrow> world \<Rightarrow> string result \<times> world" where
  "summary output_dir total_icons w =
     (let w1 = print (newline @ check_box @ '' Successfully generated '' @ str (int total_icons)
                        @ '' icon files in '' @ quote @ output_dir @ ''/'' @ quote) w;
          w2 = print (newline @ folder @ '' Directory structure:'') w1;
          w3 = print (''   '' @ output_dir @ ''/'') w2
      in case sizes_of ''iphone'' of
           Inl e \<Rightarrow> (Inl e, w3)
         | Inr iphone \<Rightarrow>
      let w4 = print (''   '' @ tee @ '' iphone/     ('' @ str (int (length iphone))
                        @ '' files)'') w3
      in case sizes_of ''ipad'' of
           Inl e \<Rightarrow> (Inl e, w4)
         | Inr ipad \<Rightarrow>
      let w5 = print (''   '' @ tee @ '' ipad/       ('' @ str (int (length ipad))
                        @ '' files)'') w4
      in case sizes_of ''appstore'' of
           Inl e \<Rightarrow> (Inl e, w5)
         | Inr appstore \<Rightarrow>
      (Inr output_dir,
       print (''   '' @ elbow @ '' appstore/   ('' @ str (int (length appstore))
                @ '' file)'') w5))"

definition generate_icons :: "string \<Rightarrow> string \<Rightarrow> world \<Rightarrow> string result \<times> world" where
  "generate_icons source_path output_dir w =
     (if \<not> path_exists w source_path
      then (Inl (SystemExit 1),
            print (''Error: Source image '' @ quote @ source_path @ quote @ '' not found!'') w)
      else case Image_open w source_path of
        Inl e \<Rightarrow>
          (Inl (SystemExit 1), print (''Error opening image: '' @ exception_text e) w)
      | Inr opened \<Rightarrow>
          (let w1 = print (check_mark @ '' Loaded source image: '' @ str (width_of opened)
                             @ ''x'' @ str (height_of opened)) w;
               img = (if mode_of opened \<noteq> ''RGBA'' then Convert ''RGBA'' opened else opened)
           in case makedirs output_dir w1 of
                (Inl e, w2) \<Rightarrow> (Inl e, w2)
              | (Inr _, w2) \<Rightarrow>
                  (case write_categories img output_dir IOS_ICON_SIZES 0 w2 of
                     (Inl e, w3) \<Rightarrow> (Inl e, w3)
                   | (Inr total_icons, w3) \<Rightarrow> summary output_dir total_icons w3)))"

text \<open>
  The script's entry point: \<open>argv\<close> is \<open>sys.argv\<close>, the result is the exit status of the
  process (an uncaught exception ends it with status 1).
\<close>

definition exit_status :: "'a result \<Rightarrow> int" where
  "exit_status r = (case r of Inr _ \<Rightarrow> 0 | Inl (SystemExit n) \<Rightarrow> n | Inl _ \<Rightarrow> 1)"

definition script :: "string list \<Rightarrow> world \<Rightarrow> int \<times> world" where
  "script argv w =
     (if length argv < 2
      then (1,
            print ''  python3 generate_app_icons.py rendio.ai.icon.png''
              (print (newline @ ''Example:'')
                (print ''Usage: python3 generate_app_icons.py <source_image_path>'' w)))
      else
        (let source_image = argv ! 1;
             output_directory = (if 3 \<le> length argv then argv ! 2 else ''AppIcons'')
         in case generate_icons source_image output_directory w of
              (r, w') \<Rightarrow> (exit_status r, w')))"

subsection \<open>What the size table asks for\<close>

text \<open>
  The files that the specification expects from a run, written from its words: for every
  category and every \<open>(filename, size)\<close> pair of its table, the file
  \<open><output_dir>/<category>/<filename>\<close> holding the decoded source resampled to
  \<open>size x size\<close>, flattened onto white for the \<open>appstore\<close> category.
\<close>

definition icon_path :: "string \<Rightarrow> string \<Rightarrow> string \<Rightarrow> string" where
  "icon_path output_dir category filename = path_join (path_join output_dir category) filename"

definition icon_raster :: "raster \<Rightarrow> string \<Rightarrow> int \<Rightarrow> raster" where
  "icon_raster img category side =
     (let resized = Resize img (word_of_int side) (word_of_int side)
      in if category = ''appstore''
         then PasteMask (New ''RGB'' (word_of_int side) (word_of_int side) [255, 255, 255])
                resized 0 0 resized
         else resized)"

definition icon_files ::
  "string \<Rightarrow> raster \<Rightarrow> (string \<times> (string \<times> int) list) list \<Rightarrow> (string \<times> raster) list"
where
  "icon_files output_dir img table =
     concat (map (\<lambda>(category, sizes).
       map (\<lambda>(filename, side).
         (icon_path output_dir category filename, icon_raster img category side)) sizes) table)"

text \<open>The files of a directory tree after a list of images has been saved, in order.\<close>

fun store :: "(string \<times> raster) list \<Rightarrow> (string \<rightharpoonup> content) \<Rightarrow> (string \<rightharpoonup> content)" where
  "store [] f = f"
| "store ((p, im) # rest) f = store rest (f(p \<mapsto> Image im))"

text \<open>
  The file system lets a run create its output tree: every directory of the tree exists
  already or can be created (no regular file is in its place), and every icon file can be
  written.
\<close>

definition can_make_dir :: "world \<Rightarrow> string \<Rightarrow> bool" where
  "can_make_dir w p =
     (if p \<in> dirs w then True
      else case files w p of Some c \<Rightarrow> False | None \<Rightarrow> permitted w p)"

definition can_write_icons :: "world \<Rightarrow> string \<Rightarrow> bool" where
  "can_write_icons w output_dir =
     (can_make_dir w output_dir \<and>
      list_all (\<lambda>(category, sizes).
        can_make_dir w (path_join output_dir category) \<and>
        list_all (\<lambda>(filename, side). permitted w (icon_path output_dir category filename))
          sizes) IOS_ICON_SIZES)"

text \<open>The source image as the script uses it: converted to RGBA unless it is RGBA already.\<close>

definition decoded :: "raster \<Rightarrow> raster" where
  "decoded opened = (if mode_of opened = ''RGBA'' then opened else Convert ''RGBA'' opened)"

text \<open>A file system for a run of the icon generator: \<open>logo.png\<close> as before, and the command
  line \<open>generate_app_icons.py logo.png\<close>.\<close>

definition example_argv :: "string list" where
  "example_argv = [''generate_app_icons.py'', ''logo.png'']"

definition missing_argv :: "string list" where
  "missing_argv = [''generate_app_icons.py'', ''missing.png'']"

section \<open>Properties of the rounding\<close>

text \<open>The largest double as a numeral, for evaluation.\<close>

lemma DBL_MAX_numeral [code]:
  "DBL_MAX =
     179769313486231570814527423731704356798070567525844996598917476803157260780028538760589558632766878171540458953514382464234321326889464182768467546703537516986049910576551282076245490090389328944075868508455133942304583236903222948165808559332123348274797826204144723168738177180919299881250404026184124858368"
  by (simp add: DBL_MAX_def)

text \<open>\<open>round\<close> is within one half of its argument, and exact on integers.\<close>

lemma rhe_upper: "of_int (round_half_even x) \<le> x + 1 / 2"
  unfolding round_half_even_def Let_def by (auto; linarith)

lemma rhe_lower: "x - 1 / 2 \<le> of_int (round_half_even x)"
  unfolding round_half_even_def Let_def by (auto; linarith)

lemma rhe_of_int: "round_half_even (of_int n) = n"
  unfolding round_half_even_def Let_def by simp

lemma rhe_nonneg: "0 \<le> x \<Longrightarrow> 0 \<le> round_half_even x"
  unfolding round_half_even_def Let_def by (auto; linarith)

lemma ilog2_lower:
  assumes "0 < x"
  shows "2 powi (ilog2 x) \<le> x"
proof -
  obtain p q where pq: "quotient_of x = (p, q)" by (cases "quotient_of x")
  have q: "0 < q" using pq by (rule quotient_of_denom_pos)
  have x: "x = of_int p / of_int q" using pq by (rule quotient_of_div)
  have p: "0 < p" using assms q x by (simp add: zero_less_divide_iff)
  define d where "d = bitlen p - bitlen q"
  show ?thesis
  proof (cases "2 powi d \<le> x")
    case True
    then show ?thesis by (simp add: ilog2_def pq d_def)
  next
    case False
    have bp: "1 \<le> bitlen p" using p bitlen_eq_zero_iff [of p] bitlen_nonneg [of p] by linarith
    have bq: "1 \<le> bitlen q" using q bitlen_eq_zero_iff [of q] bitlen_nonneg [of q] by linarith
    have lo: "(2::rat) powi (bitlen p - 1) \<le> of_int p"
    proof -
      have "2 ^ nat (bitlen p - 1) \<le> p" using bitlen_bounds [OF p] by simp
      then have "rat_of_int (2 ^ nat (bitlen p - 1)) \<le> of_int p" by (simp only: of_int_le_iff)
      then show ?thesis using bp by (simp add: power_int_nonneg_exp)
    qed
    have hi: "of_int q \<le> (2::rat) powi (bitlen q)"
    proof -
      have "q < 2 ^ nat (bitlen q)" using bitlen_bounds [OF q] by simp
      then have "rat_of_int q \<le> rat_of_int (2 ^ nat (bitlen q))" by (simp only: of_int_le_iff)
      then show ?thesis using bq by (simp add: power_int_nonneg_exp)
    qed
    have "(2::rat) powi (d - 1) = 2 powi (bitlen p - 1) / 2 powi (bitlen q)"
      unfolding d_def using power_int_diff [of "2::rat" "bitlen p - 1" "bitlen q"]
      by (simp add: algebra_simps)
    also have "\<dots> \<le> of_int p / of_int q"
      by (rule frac_le) (use lo hi p q in auto)
    finally have "(2::rat) powi (d - 1) \<le> x" using x by simp
    then show ?thesis using False by (simp add: ilog2_def pq d_def)
  qed
qed

lemma fl_error: "\<bar>fl x - x\<bar> \<le> \<bar>x\<bar> / 2 ^ 53 + 1 / 2 ^ 1075"
proof (cases "x = 0")
  case True
  then show ?thesis by (simp add: fl_def)
next
  case False
  define e where "e = max (ilog2 \<bar>x\<bar>) (- 1022)"
  define ulp :: rat where "ulp = 2 powi (e - 52)"
  have ulp_pos: "0 < ulp" by (simp add: ulp_def)
  have flx: "fl x = of_int (round_half_even (x / ulp)) * ulp"
    using False by (simp add: fl_def Let_def e_def ulp_def)
  have "\<bar>of_int (round_half_even (x / ulp)) - x / ulp\<bar> \<le> 1 / 2"
    using rhe_upper [of "x / ulp"] rhe_lower [of "x / ulp"] by linarith
  then have "\<bar>of_int (round_half_even (x / ulp)) - x / ulp\<bar> * ulp \<le> 1 / 2 * ulp"
    using ulp_pos by (simp add: mult_le_cancel_right)
  moreover have "\<bar>of_int (round_half_even (x / ulp)) - x / ulp\<bar> * ulp = \<bar>fl x - x\<bar>"
  proof -
    have "\<bar>of_int (round_half_even (x / ulp)) - x / ulp\<bar> * ulp
        = \<bar>(of_int (round_half_even (x / ulp)) - x / ulp) * ulp\<bar>"
      using ulp_pos by (simp add: abs_mult)
    also have "(of_int (round_half_even (x / ulp)) - x / ulp) * ulp = fl x - x"
      using ulp_pos flx by (simp add: left_diff_distrib)
    finally show ?thesis .
  qed
  ultimately have err: "\<bar>fl x - x\<bar> \<le> ulp / 2" by simp
  have "ulp / 2 \<le> \<bar>x\<bar> / 2 ^ 53 + 1 / 2 ^ 1075"
  proof (cases "- 1022 \<le> ilog2 \<bar>x\<bar>")
    case True
    then have "e = ilog2 \<bar>x\<bar>" by (simp add: e_def)
    then have "ulp = 2 powi (ilog2 \<bar>x\<bar>) / 2 ^ 52"
      unfolding ulp_def using power_int_diff [of "2::rat" "ilog2 \<bar>x\<bar>" 52] by simp
    moreover have "2 powi (ilog2 \<bar>x\<bar>) \<le> \<bar>x\<bar>" using False by (intro ilog2_lower) simp
    ultimately have "ulp \<le> \<bar>x\<bar> / 2 ^ 52" by (simp add: divide_right_mono)
    then have "ulp / 2 \<le> \<bar>x\<bar> / 2 ^ 53" by simp
    moreover have "(0::rat) \<le> 1 / 2 ^ 1075" by simp
    ultimately show ?thesis by linarith
  next
    case False
    then have "e = - 1022" by (simp add: e_def)
    then have "ulp = 2 powi (- 1074)" by (simp add: ulp_def)
    then have "ulp = 1 / 2 ^ 1074" by (simp add: power_int_minus_divide)
    then have "ulp / 2 = 1 / 2 ^ 1075" by simp
    then show ?thesis by simp
  qed
  with err show ?thesis by linarith
qed

lemma fl_nonneg: "0 \<le> x \<Longrightarrow> 0 \<le> fl x"
  unfolding fl_def Let_def by (auto intro!: mult_nonneg_nonneg rhe_nonneg divide_nonneg_nonneg)

lemma fl_of_int:
  assumes "\<bar>n\<bar> < 2 ^ 53"
  shows "fl (of_int n) = of_int n"
proof (cases "n = 0")
  case True
  then show ?thesis by (simp add: fl_def)
next
  case False
  define a :: rat where "a = \<bar>of_int n\<bar>"
  have a_pos: "0 < a" using False by (simp add: a_def)
  have a_lt: "a < 2 powi 53"
  proof -
    have "rat_of_int \<bar>n\<bar> < rat_of_int (2 ^ 53)" using assms by (simp only: of_int_less_iff)
    then show ?thesis by (simp add: a_def)
  qed
  have "ilog2 a < 53"
  proof (rule ccontr)
    assume "\<not> ilog2 a < 53"
    then have "(2::rat) powi 53 \<le> 2 powi (ilog2 a)" by (intro power_int_increasing) auto
    with ilog2_lower [OF a_pos] a_lt show False by linarith
  qed
  define e where "e = max (ilog2 a) (- 1022)"
  have e: "e \<le> 52" using \<open>ilog2 a < 53\<close> by (simp add: e_def)
  define k where "k = nat (52 - e)"
  have ulp: "(2::rat) powi (e - 52) = 1 / 2 ^ k"
  proof -
    have "e - 52 = - int k" using e by (simp add: k_def)
    then show ?thesis by (simp add: power_int_minus_divide)
  qed
  have "rat_of_int n / (1 / 2 ^ k) = of_int (n * 2 ^ k)" by simp
  then have "round_half_even (rat_of_int n / (1 / 2 ^ k)) = n * 2 ^ k"
    by (simp only: rhe_of_int)
  then have "of_int (round_half_even (rat_of_int n / (1 / 2 ^ k))) * (1 / 2 ^ k) = rat_of_int n"
    by simp
  then show ?thesis using False unfolding fl_def Let_def a_def [symmetric] e_def [symmetric] ulp
    by (simp add: a_def)
qed

lemma fl_upper: "0 \<le> x \<Longrightarrow> fl x \<le> x + x / 2 ^ 53 + 1 / 2 ^ 1075"
  using fl_error [of x] by (simp add: abs_le_iff)

lemma fl_lower: "0 \<le> x \<Longrightarrow> x - x / 2 ^ 53 - 1 / 2 ^ 1075 \<le> fl x"
  using fl_error [of x] by (simp add: abs_le_iff)

lemma tiny: "(1::rat) / 2 ^ 1075 \<le> 1 / 2 ^ 60"
  by (intro divide_left_mono power_increasing) auto

lemma DBL_MAX_big: "2 ^ 64 \<le> DBL_MAX"
proof -
  have "(2::rat) ^ 64 \<le> 1 * 2 ^ 971" by (simp add: power_increasing)
  also have "\<dots> \<le> (2 ^ 53 - 1) * 2 ^ 971" by (intro mult_right_mono) auto
  finally show ?thesis by (simp add: DBL_MAX_def)
qed

text \<open>Results in the range of image sides are finite doubles, within the rounding error
  of the exact result.\<close>

lemma to_float_Finite:
  assumes "0 \<le> x" "x \<le> 2 ^ 62"
  shows "to_float x = Finite (fl x)"
proof -
  have "fl x \<le> x + x / 2 ^ 53 + 1 / 2 ^ 1075" using assms(1) by (rule fl_upper)
  moreover have "x / 2 ^ 53 \<le> 2 ^ 62 / 2 ^ 53" using assms(2) by (simp add: divide_right_mono)
  moreover note tiny
  ultimately have "fl x \<le> 2 ^ 64" using assms(2) by simp
  then have "fl x \<le> DBL_MAX" using DBL_MAX_big by linarith
  moreover have "0 \<le> fl x" using assms(1) by (rule fl_nonneg)
  moreover have "0 \<le> DBL_MAX" using DBL_MAX_big order_trans [of 0 "2 ^ 64" DBL_MAX] by simp
  ultimately show ?thesis by (simp add: to_float_def Let_def)
qed

lemma clamp_range:
  "\<exists>r. py_max (Finite 0) (py_min (Finite 45) mp) = Finite r \<and> 0 \<le> r \<and> r \<le> 45"
  by (cases mp) (auto simp: py_max_def py_min_def)

lemma margin_range:
  "\<exists>m. margin_of mp = Inr (Finite m) \<and> 0 \<le> m \<and> m \<le> 9 / 20 + 1 / 2 ^ 50"
proof -
  obtain r where r: "py_max (Finite 0) (py_min (Finite 45) mp) = Finite r" "0 \<le> r" "r \<le> 45"
    using clamp_range by blast
  define q where "q = r / 100"
  have q: "0 \<le> q" "q \<le> 9 / 20" using r by (simp_all add: q_def)
  have "to_float q = Finite (fl q)" using q by (intro to_float_Finite) auto
  then have eq: "margin_of mp = Inr (Finite (fl q))" by (simp add: margin_of_def r q_def)
  have "fl q \<le> q + q / 2 ^ 53 + 1 / 2 ^ 1075" using q(1) by (rule fl_upper)
  moreover have "q / 2 ^ 53 \<le> (9 / 20) / 2 ^ 53" using q(2) by (simp add: divide_right_mono)
  moreover note tiny
  ultimately have "fl q \<le> 9 / 20 + 1 / 2 ^ 50" using q(2) by simp
  moreover have "0 \<le> fl q" using q(1) by (rule fl_nonneg)
  ultimately show ?thesis using eq by blast
qed

lemma factor_range:
  assumes "0 \<le> m" "m \<le> 9 / 20 + 1 / 2 ^ 50"
  shows "\<exists>f. float_sub (Finite 1) (float_mul (Finite 2) (Finite m)) = Finite f
           \<and> 1 / 10 - 1 / 2 ^ 47 \<le> f \<and> f \<le> 1 + 1 / 2 ^ 52"
proof -
  define t where "t = fl (2 * m)"
  have m2: "0 \<le> 2 * m" "2 * m \<le> 9 / 10 + 1 / 2 ^ 49" using assms by simp_all
  have t_eq: "float_mul (Finite 2) (Finite m) = Finite t"
    using m2 by (simp add: t_def to_float_Finite)
  have t0: "0 \<le> t" unfolding t_def using m2(1) by (rule fl_nonneg)
  have "t \<le> 2 * m + 2 * m / 2 ^ 53 + 1 / 2 ^ 1075" unfolding t_def using m2(1) by (rule fl_upper)
  moreover have "2 * m / 2 ^ 53 \<le> (9 / 10 + 1 / 2 ^ 49) / 2 ^ 53"
    using m2(2) by (simp only: divide_right_mono zero_le_numeral zero_le_power)
  moreover note tiny
  ultimately have t1: "t \<le> 9 / 10 + 1 / 2 ^ 48" using m2(2) by simp
  define d where "d = 1 - t"
  have d: "1 / 10 - 1 / 2 ^ 48 \<le> d" "d \<le> 1" using t0 t1 by (simp_all add: d_def)
  have d0: "0 \<le> d" using d(1) by simp
  have f_eq: "float_sub (Finite 1) (Finite t) = Finite (fl d)"
    using d d0 by (simp add: d_def [symmetric] to_float_Finite)
  have up: "fl d \<le> d + d / 2 ^ 53 + 1 / 2 ^ 1075" using d0 by (rule fl_upper)
  have lo: "d - d / 2 ^ 53 - 1 / 2 ^ 1075 \<le> fl d" using d0 by (rule fl_lower)
  have dd: "d / 2 ^ 53 \<le> 1 / 2 ^ 53" using d(2) by (simp add: divide_right_mono)
  have "fl d \<le> 1 + 1 / 2 ^ 52" using up dd tiny d(2) by simp
  moreover have "1 / 10 - 1 / 2 ^ 47 \<le> fl d" using lo dd tiny d(1) by simp
  ultimately show ?thesis using t_eq f_eq by simp
qed

lemma float_of_int_exact:
  assumes "0 \<le> n" "n \<le> INT_MAX"
  shows "float_of_int n = Inr (Finite (of_int n))"
proof -
  have n: "n < 2 ^ 31" using assms(2) by (simp add: INT_MAX_def)
  then have "\<bar>n\<bar> < 2 ^ 53" using assms(1) by simp
  then have fl: "fl (of_int n) = of_int n" by (rule fl_of_int)
  have "rat_of_int n \<le> rat_of_int (2 ^ 31)" using n by (simp only: of_int_le_iff)
  then have "rat_of_int n \<le> 2 ^ 64" by simp
  then have "\<bar>rat_of_int n\<bar> \<le> DBL_MAX" using DBL_MAX_big assms(1) by simp
  then show ?thesis by (simp add: float_of_int_def fl Let_def)
qed

lemma rat_of_side:
  assumes "n \<le> INT_MAX"
  shows "rat_of_int n \<le> 2 ^ 31"
proof -
  have "n \<le> 2 ^ 31" using assms by (simp add: INT_MAX_def)
  then have "rat_of_int n \<le> rat_of_int (2 ^ 31)" by (simp only: of_int_le_iff)
  then show ?thesis by simp
qed

lemma inset_range:
  assumes "0 \<le> c" "c \<le> INT_MAX"
  shows "\<exists>i. inset_for c mp = Inr i \<and> 0 \<le> i \<and> i \<le> c \<and> c - 5 \<le> 10 * i"
proof -
  obtain m where m: "margin_of mp = Inr (Finite m)" "0 \<le> m" "m \<le> 9 / 20 + 1 / 2 ^ 50"
    using margin_range by blast
  obtain f where f: "float_sub (Finite 1) (float_mul (Finite 2) (Finite m)) = Finite f"
      "1 / 10 - 1 / 2 ^ 47 \<le> f" "f \<le> 1 + 1 / 2 ^ 52"
    using factor_range [OF m(2,3)] by blast
  define C where "C = rat_of_int c"
  have C: "0 \<le> C" "C \<le> 2 ^ 31" using assms rat_of_side by (simp_all add: C_def)
  have f0: "0 \<le> f" using f(2) by simp
  define p where "p = C * f"
  have p0: "0 \<le> p" using C(1) f0 by (simp add: p_def)
  have "p \<le> C * (1 + 1 / 2 ^ 52)" unfolding p_def using f(3) C(1) by (rule mult_left_mono)
  moreover have "C / 2 ^ 52 \<le> 2 ^ 31 / 2 ^ 52" using C(2) by (simp only: divide_right_mono zero_le_numeral zero_le_power)
  ultimately have p_up: "p \<le> C + 1 / 2 ^ 21" by (simp add: algebra_simps)
  have "C * (1 / 10 - 1 / 2 ^ 47) \<le> p" unfolding p_def using f(2) C(1) by (rule mult_left_mono)
  moreover have "C / 2 ^ 47 \<le> 2 ^ 31 / 2 ^ 47" using C(2) by (simp only: divide_right_mono zero_le_numeral zero_le_power)
  ultimately have p_lo: "C / 10 - 1 / 2 ^ 16 \<le> p" by (simp add: algebra_simps)
  have p62: "p \<le> 2 ^ 62" using p_up C(2) by simp
  have mul: "float_mul (Finite C) (Finite f) = Finite (fl p)"
    using p0 p62 by (simp add: p_def [symmetric] to_float_Finite)
  define yv where "yv = fl p"
  have y0: "0 \<le> yv" unfolding yv_def using p0 by (rule fl_nonneg)
  have pp: "p / 2 ^ 53 \<le> (2 ^ 31 + 1) / 2 ^ 53"
    using p_up C(2) by (intro divide_right_mono) auto
  have "yv \<le> p + p / 2 ^ 53 + 1 / 2 ^ 1075" unfolding yv_def using p0 by (rule fl_upper)
  then have y_up: "yv < C + 1 / 2" using pp tiny p_up by simp
  have "p - p / 2 ^ 53 - 1 / 2 ^ 1075 \<le> yv" unfolding yv_def using p0 by (rule fl_lower)
  then have y_lo: "C / 10 - 1 / 2 ^ 15 \<le> yv" using pp tiny p_lo by simp
  define i where "i = round_half_even yv"
  have eq: "inset_for c mp = Inr i"
    using float_of_int_exact [OF assms]
    by (simp add: inset_for_def m(1) bind_def inset_of_def int_mul_float_def f(1) mul
        C_def [symmetric] i_def yv_def del: float_mul.simps float_sub.simps)
  have i0: "0 \<le> i" unfolding i_def using y0 by (rule rhe_nonneg)
  have "rat_of_int i \<le> yv + 1 / 2" unfolding i_def by (rule rhe_upper)
  then have "rat_of_int i < rat_of_int (c + 1)" using y_up by (simp add: C_def)
  then have i_up: "i \<le> c" by (simp only: of_int_less_iff)
  have "yv - 1 / 2 \<le> rat_of_int i" unfolding i_def by (rule rhe_lower)
  then have "rat_of_int (c - 6) < rat_of_int (10 * i)" using y_lo by (simp add: C_def)
  then have i_lo: "c - 5 \<le> 10 * i" by (simp only: of_int_less_iff)
  show ?thesis using eq i0 i_up i_lo by blast
qed

lemma int_truediv_range:
  assumes "0 \<le> a" "a \<le> INT_MAX" "1 \<le> b"
  shows "\<exists>q. int_truediv a b = Inr (Finite q) \<and> 0 \<le> q
           \<and> q \<le> of_int a / of_int b + (of_int a / of_int b) / 2 ^ 53 + 1 / 2 ^ 1075"
proof -
  define r where "r = rat_of_int a / rat_of_int b"
  have A: "0 \<le> rat_of_int a" "rat_of_int a \<le> 2 ^ 31" using assms rat_of_side by simp_all
  have B: "1 \<le> rat_of_int b" using assms(3) by simp
  have r0: "0 \<le> r" using A(1) B by (simp add: r_def)
  have "r \<le> rat_of_int a / 1" unfolding r_def using A(1) B by (intro divide_left_mono) auto
  then have r31: "r \<le> 2 ^ 31" using A(2) by simp
  have q0: "0 \<le> fl r" using r0 by (rule fl_nonneg)
  have up: "fl r \<le> r + r / 2 ^ 53 + 1 / 2 ^ 1075" using r0 by (rule fl_upper)
  have "r / 2 ^ 53 \<le> 2 ^ 31 / 2 ^ 53" using r31 by (simp only: divide_right_mono zero_le_numeral zero_le_power)
  then have "fl r \<le> 2 ^ 64" using up tiny r31 by simp
  then have "\<bar>fl r\<bar> \<le> DBL_MAX" using DBL_MAX_big q0 by simp
  then have "int_truediv a b = Inr (Finite (fl r))"
    using assms(3) by (simp add: int_truediv_def r_def Let_def)
  then show ?thesis using q0 up unfolding r_def by blast
qed

lemma new_side_range:
  assumes "0 \<le> inset" "inset \<le> INT_MAX" "1 \<le> s" "s \<le> INT_MAX" "0 \<le> sc"
    and sc: "sc \<le> of_int inset / of_int s + (of_int inset / of_int s) / 2 ^ 53 + 1 / 2 ^ 1075"
  shows "\<exists>n. new_side s (Finite sc) = Inr n \<and> 1 \<le> n \<and> n \<le> max 1 inset"
proof -
  define I where "I = rat_of_int inset"
  define S where "S = rat_of_int s"
  have I: "0 \<le> I" "I \<le> 2 ^ 31" using assms(1,2) rat_of_side by (simp_all add: I_def)
  have S: "1 \<le> S" "S \<le> 2 ^ 31" using assms(3,4) rat_of_side by (simp_all add: S_def)
  define p where "p = S * sc"
  have p0: "0 \<le> p" using S(1) assms(5) by (simp add: p_def)
  have "p \<le> S * (I / S + (I / S) / 2 ^ 53 + 1 / 2 ^ 1075)"
    unfolding p_def using sc S(1) by (intro mult_left_mono) (auto simp: I_def S_def)
  also have "\<dots> = I + I / 2 ^ 53 + S / 2 ^ 1075" using S(1) by (simp add: algebra_simps)
  finally have p1: "p \<le> I + I / 2 ^ 53 + S / 2 ^ 1075" .
  have "I / 2 ^ 53 \<le> 2 ^ 31 / 2 ^ 53" using I(2) by (simp only: divide_right_mono zero_le_numeral zero_le_power)
  moreover have "S / 2 ^ 1075 \<le> S / 2 ^ 60" using S(1) by (intro divide_left_mono power_increasing) auto
  moreover have "S / 2 ^ 60 \<le> 2 ^ 31 / 2 ^ 60" using S(2) by (simp only: divide_right_mono zero_le_numeral zero_le_power)
  ultimately have p_up: "p \<le> I + 1 / 2 ^ 21" using p1 by simp
  have p62: "p \<le> 2 ^ 62" using p_up I(2) by simp
  have mul: "float_mul (Finite S) (Finite sc) = Finite (fl p)"
    using p0 p62 by (simp add: p_def [symmetric] to_float_Finite)
  define yv where "yv = fl p"
  have pp: "p / 2 ^ 53 \<le> (2 ^ 31 + 1) / 2 ^ 53"
    using p_up I(2) by (intro divide_right_mono) auto
  have "yv \<le> p + p / 2 ^ 53 + 1 / 2 ^ 1075" unfolding yv_def using p0 by (rule fl_upper)
  then have y_up: "yv < I + 1 / 2" using pp tiny p_up by simp
  define r where "r = round_half_even yv"
  have eq: "new_side s (Finite sc) = Inr (max 1 r)"
    using float_of_int_exact [of s] assms(3,4)
    by (simp add: new_side_def bind_def int_mul_float_def mul S_def [symmetric] r_def yv_def
        del: float_mul.simps)
  have "rat_of_int r \<le> yv + 1 / 2" unfolding r_def by (rule rhe_upper)
  then have "rat_of_int r < rat_of_int (inset + 1)" using y_up by (simp add: I_def)
  then have "r \<le> inset" by (simp only: of_int_less_iff)
  then show ?thesis using eq by auto
qed

lemma place_range:
  assumes "0 \<le> inset" "inset \<le> INT_MAX" "1 \<le> w" "w \<le> INT_MAX" "1 \<le> h" "h \<le> INT_MAX"
  shows "\<exists>p. place c inset w h = Inr p
           \<and> 1 \<le> new_w p \<and> new_w p \<le> max 1 inset
           \<and> 1 \<le> new_h p \<and> new_h p \<le> max 1 inset
           \<and> dest_x p = (c - new_w p) div 2 \<and> dest_y p = (c - new_h p) div 2"
proof -
  obtain qa where qa: "int_truediv inset w = Inr (Finite qa)" "0 \<le> qa"
      "qa \<le> of_int inset / of_int w + (of_int inset / of_int w) / 2 ^ 53 + 1 / 2 ^ 1075"
    using int_truediv_range [OF assms(1,2,3)] by blast
  obtain qb where qb: "int_truediv inset h = Inr (Finite qb)" "0 \<le> qb"
      "qb \<le> of_int inset / of_int h + (of_int inset / of_int h) / 2 ^ 53 + 1 / 2 ^ 1075"
    using int_truediv_range [OF assms(1,2,5)] by blast
  define sc where "sc = (if qb < qa then qb else qa)"
  have sc_eq: "scale_of inset w h = Inr (Finite sc)"
    by (simp add: scale_of_def qa(1) qb(1) bind_def py_min_def sc_def)
  have sc0: "0 \<le> sc" and sca: "sc \<le> qa" and scb: "sc \<le> qb" using qa(2) qb(2) by (simp_all add: sc_def)
  obtain nw where nw: "new_side w (Finite sc) = Inr nw" "1 \<le> nw" "nw \<le> max 1 inset"
    using new_side_range [OF assms(1,2,3,4) sc0] sca qa(3) by force
  obtain nh where nh: "new_side h (Finite sc) = Inr nh" "1 \<le> nh" "nh \<le> max 1 inset"
    using new_side_range [OF assms(1,2,5,6) sc0] scb qb(3) by force
  show ?thesis using nw nh by (simp add: place_def sc_eq bind_def)
qed

section \<open>Properties of fix\_icon\_padding.py\<close>

subsection \<open>What a run that reaches the paste has computed\<close>

lemma sint_side:
  assumes "0 \<le> n" "n \<le> INT_MAX"
  shows "sint (word_of_int n :: 32 word) = n"
  using assms by (simp add: INT_MAX_def sint_sbintrunc' signed_take_bit_int_eq_self)

lemma width_of_le: "width_of im \<le> INT_MAX"
proof (induction im)
  case (Pixels m xs ys k)
  show ?case using sint_lt [of xs] by (simp add: INT_MAX_def)
next
  case (New m xs ys c)
  show ?case using sint_lt [of xs] by (simp add: INT_MAX_def)
next
  case (Resize im xs ys)
  show ?case using sint_lt [of xs] by (simp add: INT_MAX_def)
qed simp_all

lemma height_of_le: "height_of im \<le> INT_MAX"
proof (induction im)
  case (Pixels m xs ys k)
  show ?case using sint_lt [of ys] by (simp add: INT_MAX_def)
next
  case (New m xs ys c)
  show ?case using sint_lt [of ys] by (simp add: INT_MAX_def)
next
  case (Resize im xs ys)
  show ?case using sint_lt [of ys] by (simp add: INT_MAX_def)
qed simp_all

lemma compose_Inr:
  assumes "compose getcolor a w = Inr out"
  shows "\<exists>inset color src p.
           inset_for (canvas a) (margin_pct a) = Inr inset
         \<and> getcolor (bg_color a) = Some color
         \<and> 0 \<le> canvas a \<and> canvas a \<le> INT_MAX
         \<and> files w (input_path a) = Some (Image src)
         \<and> place (canvas a) inset (width_of src) (height_of src) = Inr p
         \<and> 1 \<le> new_w p \<and> new_w p \<le> INT_MAX \<and> 1 \<le> new_h p \<and> new_h p \<le> INT_MAX
         \<and> out = AlphaComposite
                   (New ''RGBA'' (word_of_int (canvas a)) (word_of_int (canvas a)) color)
                   (Resize (Convert ''RGBA'' src) (word_of_int (new_w p)) (word_of_int (new_h p)))
                   (dest_x p) (dest_y p)"
  using assms
  by (auto simp: compose_def Let_def bind_def Image_new_def Image_resize_def Image_open_def
      split: sum.splits option.splits content.splits if_splits)

lemma compose_total:
  assumes "0 \<le> canvas a" "canvas a \<le> INT_MAX"
    and "getcolor (bg_color a) = Some color"
    and "files w (input_path a) = Some (Image src)"
    and "1 \<le> width_of src" "1 \<le> height_of src"
  shows "\<exists>out. compose getcolor a w = Inr out"
proof -
  obtain i where i: "inset_for (canvas a) (margin_pct a) = Inr i" "0 \<le> i" "i \<le> canvas a"
    using inset_range [OF assms(1,2)] by blast
  have i_max: "i \<le> INT_MAX" using i(3) assms(2) by simp
  obtain p where p: "place (canvas a) i (width_of src) (height_of src) = Inr p"
      "1 \<le> new_w p" "new_w p \<le> max 1 i" "1 \<le> new_h p" "new_h p \<le> max 1 i"
    using place_range [OF i(2) i_max assms(5) width_of_le assms(6) height_of_le] by blast
  have "new_w p \<le> INT_MAX" "new_h p \<le> INT_MAX"
    using p(3,5) i_max by (simp_all add: INT_MAX_def)
  then show ?thesis
    using assms i(1) p(1,2,4)
    by (simp add: compose_def Let_def bind_def Image_new_def Image_resize_def Image_open_def)
qed

lemma main_Inr:
  assumes "main getcolor a w = (Inr (), w')"
  shows "\<exists>out. compose getcolor a w = Inr out
           \<and> w' = w\<lparr>files := (files w)(output_path a \<mapsto> Image out)\<rparr>"
proof (cases "compose getcolor a w")
  case (Inl e)
  then have "main getcolor a w = (Inl e, w)" by (simp add: main_def)
  with assms show ?thesis by simp
next
  case (Inr out)
  then have m: "main getcolor a w = Image_save out (output_path a) w" by (simp add: main_def)
  show ?thesis
  proof (cases "permitted w (output_path a)")
    case True
    then have "main getcolor a w = (Inr (), w\<lparr>files := (files w)(output_path a \<mapsto> Image out)\<rparr>)"
      by (simp add: m Image_save_def)
    with assms have "w' = w\<lparr>files := (files w)(output_path a \<mapsto> Image out)\<rparr>" by simp
    with Inr show ?thesis by blast
  next
    case False
    then have "main getcolor a w = (Inl OSError, w)" by (simp add: m Image_save_def)
    with assms show ?thesis by simp
  qed
qed

lemma main_Inr_file:
  assumes "main getcolor a w = (Inr (), w')"
  shows "\<exists>out. compose getcolor a w = Inr out \<and> files w' (output_path a) = Some (Image out)"
proof -
  from main_Inr [OF assms] obtain out where out: "compose getcolor a w = Inr out"
    and w': "w' = w\<lparr>files := (files w)(output_path a \<mapsto> Image out)\<rparr>"
    by (elim exE conjE)
  have f: "files w' (output_path a) = Some (Image out)" unfolding w' by simp
  with out show ?thesis by (intro exI conjI)
qed

lemma compose_size:
  assumes "compose getcolor a w = Inr out"
  shows "width_of out = canvas a \<and> height_of out = canvas a"
proof -
  obtain inset color src p where r:
      "inset_for (canvas a) (margin_pct a) = Inr inset"
      "0 \<le> canvas a" "canvas a \<le> INT_MAX"
      "files w (input_path a) = Some (Image src)"
      "place (canvas a) inset (width_of src) (height_of src) = Inr p"
      "1 \<le> new_w p" "new_w p \<le> INT_MAX" "1 \<le> new_h p" "new_h p \<le> INT_MAX"
      "out = AlphaComposite
               (New ''RGBA'' (word_of_int (canvas a)) (word_of_int (canvas a)) color)
               (Resize (Convert ''RGBA'' src) (word_of_int (new_w p)) (word_of_int (new_h p)))
               (dest_x p) (dest_y p)"
    using compose_Inr [OF assms] by blast
  have s: "sint (word_of_int (canvas a) :: 32 word) = canvas a" using r(2,3) by (rule sint_side)
  have "width_of out = sint (word_of_int (canvas a) :: 32 word)" by (simp only: r(10) width_of.simps)
  moreover have "height_of out = sint (word_of_int (canvas a) :: 32 word)"
    by (simp only: r(10) height_of.simps)
  ultimately show ?thesis by (simp only: s)
qed

text \<open>With a canvas side Pillow can represent, a colour that parses, a source image with
  sides of at least 1 and an output path that can be written, the run succeeds.\<close>

lemma main_total:
  assumes "0 \<le> canvas a" "canvas a \<le> INT_MAX"
    and "getcolor (bg_color a) = Some color"
    and "files w (input_path a) = Some (Image src)"
    and "1 \<le> width_of src" "1 \<le> height_of src"
    and "permitted w (output_path a)"
  shows "\<exists>w'. main getcolor a w = (Inr (), w')"
proof -
  obtain out where "compose getcolor a w = Inr out"
    using compose_total [of a getcolor color w src] assms(1-6) by blast
  then show ?thesis using assms(7) by (simp add: main_def Image_save_def)
qed

subsection \<open>The run of the docstring\<close>

lemma example_inset: "inset_for 1024 (Finite (25 / 2)) = Inr 768"
  by code_simp

lemma example_place: "place 1024 768 500 300 =
   Inr \<lparr>scale = Finite (fl (1536 / 1000)), new_w = 768, new_h = 461, dest_x = 128, dest_y = 281\<rparr>"
  by code_simp

lemma example_compose:
  "compose example_getcolor example_args example_world =
     Inr (AlphaComposite (New ''RGBA'' 1024 1024 [11, 15, 26, 255])
            (Resize (Convert ''RGBA'' (Pixels ''RGB'' 500 300 0)) 768 461) 128 281)"
  by (simp add: compose_def example_getcolor_def example_args_def example_world_def bind_def
      example_inset example_place Image_new_def Image_open_def Image_resize_def INT_MAX_def)

lemma example_main:
  "main example_getcolor example_args example_world =
     (Inr (), example_world\<lparr>files := (files example_world)(''logo_padded.png'' \<mapsto>
        Image (AlphaComposite (New ''RGBA'' 1024 1024 [11, 15, 26, 255])
            (Resize (Convert ''RGBA'' (Pixels ''RGB'' 500 300 0)) 768 461) 128 281))\<rparr>)"
proof -
  have "permitted example_world (output_path example_args)" by (simp add: example_world_def)
  moreover have "output_path example_args = ''logo_padded.png''" by (simp add: example_args_def)
  ultimately show ?thesis by (simp add: main_def example_compose Image_save_def)
qed

lemma example_scale: "fl (1536 / 1000) = 3458764513820541 / 2251799813685248"
  by code_simp

lemma example_file:
  "files example_world (input_path example_args) = Some (Image (Pixels ''RGB'' 500 300 0))"
  by (simp add: example_args_def example_world_def)

subsection \<open>The claims\<close>

text \<open>
  C1. Whenever the Padder writes its output, the image written has dimensions exactly
  \<open>canvas_size x canvas_size\<close>, for every canvas size, every \<open>margin_pct\<close> and every source
  image. (By \<open>main_total\<close> it does write one for every canvas side from 1 to \<open>INT_MAX\<close>.)
\<close>

theorem padder_output_is_canvas_square:
  assumes "main getcolor a w = (Inr (), w')"
  shows "\<exists>out. files w' (output_path a) = Some (Image out)
           \<and> width_of out = canvas a \<and> height_of out = canvas a"
proof -
  from main_Inr_file [OF assms] obtain out where out: "compose getcolor a w = Inr out"
    and f: "files w' (output_path a) = Some (Image out)"
    by (elim exE conjE)
  have "files w' (output_path a) = Some (Image out)
      \<and> width_of out = canvas a \<and> height_of out = canvas a"
    using compose_size [OF out] f by simp
  then show ?thesis by (rule exI)
qed

theorem padder_output_is_canvas_square_witness:
  "\<exists>out w'. main example_getcolor example_args example_world = (Inr (), w')
     \<and> files w' ''logo_padded.png'' = Some (Image out)
     \<and> width_of out = 1024 \<and> height_of out = 1024"
  using padder_output_is_canvas_square [OF example_main] example_main by (simp add: example_args_def)

text \<open>
  C3, as stated, fails. With \<open>--canvas 1 --margin_pct 45\<close> the inset is 0, and a 1x1 source is
  resampled to 1x1 (the floor of one pixel), which exceeds the inset on both axes.
\<close>

theorem resampled_exceeds_zero_inset_counterexample:
  "inset_for 1 (Finite 45) = Inr 0 \<and>
   place 1 0 1 1 = Inr \<lparr>scale = Finite 0, new_w = 1, new_h = 1, dest_x = 0, dest_y = 0\<rparr>"
  by code_simp

text \<open>
  C3, amended. For every source image with sides of at least 1 and every \<open>margin_pct\<close>,
  whenever the inset is at least 1 the resampled image has sides between 1 and the inset,
  and it is pasted at \<open>x = (canvas_size - new_w) // 2\<close>, \<open>y = (canvas_size - new_h) // 2\<close>, so that
  the margins left and right of it, and above and below it, differ by at most one pixel.
\<close>

theorem resampled_fits_inset:
  assumes "files w (input_path a) = Some (Image src)"
    and "1 \<le> width_of src" "1 \<le> height_of src"
    and "compose getcolor a w = Inr out"
    and "inset_for (canvas a) (margin_pct a) = Inr inset"
    and "1 \<le> inset"
  shows "\<exists>bg xs ys px py.
           out = AlphaComposite bg (Resize (Convert ''RGBA'' src) xs ys) px py
         \<and> 1 \<le> sint xs \<and> sint xs \<le> inset \<and> 1 \<le> sint ys \<and> sint ys \<le> inset
         \<and> px = (canvas a - sint xs) div 2 \<and> py = (canvas a - sint ys) div 2
         \<and> \<bar>(canvas a - sint xs - px) - px\<bar> \<le> 1 \<and> \<bar>(canvas a - sint ys - py) - py\<bar> \<le> 1"
proof -
  obtain inset' color src' p where r:
      "inset_for (canvas a) (margin_pct a) = Inr inset'"
      "0 \<le> canvas a" "canvas a \<le> INT_MAX"
      "files w (input_path a) = Some (Image src')"
      "place (canvas a) inset' (width_of src') (height_of src') = Inr p"
      "1 \<le> new_w p" "new_w p \<le> INT_MAX" "1 \<le> new_h p" "new_h p \<le> INT_MAX"
      "out = AlphaComposite
               (New ''RGBA'' (word_of_int (canvas a)) (word_of_int (canvas a)) color)
               (Resize (Convert ''RGBA'' src') (word_of_int (new_w p)) (word_of_int (new_h p)))
               (dest_x p) (dest_y p)"
    using compose_Inr [OF assms(4)] by blast
  have src: "src' = src" using r(4) assms(1) by simp
  have ins: "inset' = inset" using r(1) assms(5) by simp
  obtain i where i: "inset_for (canvas a) (margin_pct a) = Inr i" "i \<le> canvas a"
    using inset_range [OF r(2,3)] by blast
  have i_max: "inset \<le> INT_MAX" using i assms(5) r(3) by simp
  have i0: "0 \<le> inset" using assms(6) by simp
  obtain p' where p': "place (canvas a) inset (width_of src) (height_of src) = Inr p'"
      "new_w p' \<le> max 1 inset" "new_h p' \<le> max 1 inset"
      "dest_x p' = (canvas a - new_w p') div 2" "dest_y p' = (canvas a - new_h p') div 2"
    using place_range [OF i0 i_max assms(2) width_of_le assms(3) height_of_le] by blast
  have p: "p' = p" using p'(1) r(5) src ins by simp
  have nw: "new_w p \<le> inset" and nh: "new_h p \<le> inset"
    using p'(2,3) p assms(6) by simp_all
  have dx: "dest_x p = (canvas a - new_w p) div 2" and dy: "dest_y p = (canvas a - new_h p) div 2"
    using p'(4,5) p by simp_all
  have cx: "\<bar>(canvas a - new_w p - dest_x p) - dest_x p\<bar> \<le> 1" unfolding dx by presburger
  have cy: "\<bar>(canvas a - new_h p - dest_y p) - dest_y p\<bar> \<le> 1" unfolding dy by presburger
  have sx: "sint (word_of_int (new_w p) :: 32 word) = new_w p"
    and sy: "sint (word_of_int (new_h p) :: 32 word) = new_h p"
    using r(6,7,8,9) by (simp_all add: sint_side)
  show ?thesis unfolding r(10) src using nw nh r(6,8) dx dy cx cy by (simp add: sx sy)
qed

theorem resampled_fits_inset_witness:
  "\<exists>bg xs ys px py.
      compose example_getcolor example_args example_world
        = Inr (AlphaComposite bg (Resize (Convert ''RGBA'' (Pixels ''RGB'' 500 300 0)) xs ys) px py)
    \<and> inset_for 1024 (Finite (25 / 2)) = Inr 768
    \<and> 1 \<le> sint xs \<and> sint xs \<le> 768 \<and> 1 \<le> sint ys \<and> sint ys \<le> 768
    \<and> px = (1024 - sint xs) div 2 \<and> py = (1024 - sint ys) div 2"
proof -
  have h1: "files example_world (input_path example_args) = Some (Image (Pixels ''RGB'' 500 300 0))"
    by (simp add: example_args_def example_world_def)
  have h2: "1 \<le> width_of (Pixels ''RGB'' 500 300 0)" by simp
  have h3: "1 \<le> height_of (Pixels ''RGB'' 500 300 0)" by simp
  have h5: "inset_for (canvas example_args) (margin_pct example_args) = Inr 768"
    by (simp add: example_args_def example_inset)
  have h6: "(1::int) \<le> 768" by simp
  have c: "canvas example_args = 1024" by (simp add: example_args_def)
  from resampled_fits_inset [OF h1 h2 h3 example_compose h5 h6] obtain bg xs ys px py where
    r: "AlphaComposite (New ''RGBA'' 1024 1024 [11, 15, 26, 255])
          (Resize (Convert ''RGBA'' (Pixels ''RGB'' 500 300 0)) 768 461) 128 281
        = AlphaComposite bg (Resize (Convert ''RGBA'' (Pixels ''RGB'' 500 300 0)) xs ys) px py"
       "1 \<le> sint xs" "sint xs \<le> 768" "1 \<le> sint ys" "sint ys \<le> 768"
       "px = (canvas example_args - sint xs) div 2" "py = (canvas example_args - sint ys) div 2"
    by blast
  show ?thesis unfolding example_compose using r example_inset unfolding c by blast
qed

text \<open>
  C4, as stated, fails. For a 500x300 source with \<open>--canvas 1024 --margin_pct 12.5\<close> the inset
  is 768, but the placement is not a 768x460 region at \<open>x = 128\<close>, \<open>y = 282\<close>.
\<close>

theorem scenario_500x300_counterexample:
  "inset_for 1024 (Finite (25 / 2)) = Inr 768 \<and>
   place 1024 768 500 300 \<noteq>
     Inr \<lparr>scale = Finite (fl (1536 / 1000)), new_w = 768, new_h = 460,
          dest_x = 128, dest_y = 282\<rparr>"
  using example_inset example_place by simp

text \<open>
  C4, amended. For a 500x300 source with \<open>--canvas 1024 --margin_pct 12.5\<close> the inset is 768,
  the scale is the double nearest to \<open>768/500 = 1.536\<close>, and the resampled region is 768x461
  pixels (300 * 1.536 = 460.8 rounds to 461), placed at \<open>x = 128\<close>,
  \<open>y = (1024 - 461) // 2 = 281\<close>.
\<close>

theorem scenario_500x300:
  "inset_for 1024 (Finite (25 / 2)) = Inr 768 \<and>
   place 1024 768 500 300 =
     Inr \<lparr>scale = Finite (fl (1536 / 1000)), new_w = 768, new_h = 461,
          dest_x = 128, dest_y = 281\<rparr> \<and>
   fl (1536 / 1000) = 3458764513820541 / 2251799813685248"
  using example_inset example_place example_scale by simp

text \<open>
  C7. Margin clamping makes an out-of-range \<open>--margin_pct\<close> equivalent to the nearest bound:
  for every command line, colour parser and file system, the run with \<open>margin_pct = 100\<close> has
  the result and the final file system of the run with \<open>margin_pct = 45\<close>, and the run with
  \<open>margin_pct = -10\<close> those of the run with \<open>margin_pct = 0\<close>.
\<close>

theorem margin_clamp_equivalent:
  "main getcolor (a\<lparr>margin_pct := Finite 100\<rparr>) w = main getcolor (a\<lparr>margin_pct := Finite 45\<rparr>) w
   \<and> main getcolor (a\<lparr>margin_pct := Finite (- 10)\<rparr>) w
       = main getcolor (a\<lparr>margin_pct := Finite 0\<rparr>) w"
  by (simp add: main_def compose_def inset_for_def margin_of_def py_min_def py_max_def
        cong: sum.case_cong)

text \<open>
  C8, as stated, fails. With \<open>--canvas 1 --margin_pct 45\<close> the inset is zero, and with
  \<open>--canvas 14 --margin_pct 45\<close> it is 1, less than 10% of 14.
\<close>

theorem inset_ten_percent_counterexample:
  "inset_for 1 (Finite 45) = Inr 0 \<and> inset_for 14 (Finite 45) = Inr 1"
  by code_simp

text \<open>
  C8, amended. For every canvas side from 1 to \<open>INT_MAX\<close> (the sides Pillow can represent) and
  every \<open>margin_pct\<close>, the inset is at least 10% of the canvas side less the half pixel that
  rounding may take (\<open>10 * inset \<ge> canvas_size - 5\<close>), and it is at least 1 whenever the
  canvas side is at least 6.
\<close>

theorem inset_tenth_within_rounding:
  assumes "1 \<le> c" "c \<le> INT_MAX"
  shows "\<exists>i. inset_for c mp = Inr i \<and> c - 5 \<le> 10 * i \<and> (6 \<le> c \<longrightarrow> 1 \<le> i)"
proof -
  have "0 \<le> c" using assms(1) by simp
  from inset_range [OF this assms(2), of mp]
  obtain i where i: "inset_for c mp = Inr i" "i \<le> c" "c - 5 \<le> 10 * i" by blast
  have "6 \<le> c \<longrightarrow> 1 \<le> i" using i(3) by simp
  then show ?thesis using i by blast
qed

theorem inset_tenth_within_rounding_witness:
  "\<exists>i. inset_for 1024 (Finite 45) = Inr i \<and> 1024 - 5 \<le> 10 * i \<and> 1 \<le> i"
proof -
  have h1: "(1::int) \<le> 1024" by simp
  have h2: "1024 \<le> INT_MAX" by (simp add: INT_MAX_def)
  from inset_tenth_within_rounding [OF h1 h2, of "Finite 45"] show ?thesis by simp
qed

text \<open>
  C10. For every canvas side of at least 1, every \<open>margin_pct\<close> and every source image with
  sides of at least 1, a run that reaches the paste composites the resampled image at a
  destination that lies fully within the canvas: \<open>x \<ge> 0\<close>, \<open>y \<ge> 0\<close>,
  \<open>x + new_w \<le> canvas_size\<close> and \<open>y + new_h \<le> canvas_size\<close>.
\<close>

theorem paste_within_canvas:
  assumes "1 \<le> canvas a"
    and "files w (input_path a) = Some (Image src)"
    and "1 \<le> width_of src" "1 \<le> height_of src"
    and "compose getcolor a w = Inr out"
  shows "\<exists>bg im px py. out = AlphaComposite bg im px py
           \<and> width_of bg = canvas a \<and> height_of bg = canvas a
           \<and> 0 \<le> px \<and> 0 \<le> py
           \<and> px + width_of im \<le> canvas a \<and> py + height_of im \<le> canvas a"
proof -
  obtain inset color src' p where r:
      "inset_for (canvas a) (margin_pct a) = Inr inset"
      "0 \<le> canvas a" "canvas a \<le> INT_MAX"
      "files w (input_path a) = Some (Image src')"
      "place (canvas a) inset (width_of src') (height_of src') = Inr p"
      "1 \<le> new_w p" "new_w p \<le> INT_MAX" "1 \<le> new_h p" "new_h p \<le> INT_MAX"
      "out = AlphaComposite
               (New ''RGBA'' (word_of_int (canvas a)) (word_of_int (canvas a)) color)
               (Resize (Convert ''RGBA'' src') (word_of_int (new_w p)) (word_of_int (new_h p)))
               (dest_x p) (dest_y p)"
    using compose_Inr [OF assms(5)] by blast
  have src: "src' = src" using r(4) assms(2) by simp
  obtain i where i: "inset_for (canvas a) (margin_pct a) = Inr i" "0 \<le> i" "i \<le> canvas a"
    using inset_range [OF r(2,3)] by blast
  have inset: "0 \<le> inset" "inset \<le> canvas a" using i r(1) by simp_all
  have i_max: "inset \<le> INT_MAX" using inset(2) r(3) by simp
  obtain p' where p': "place (canvas a) inset (width_of src) (height_of src) = Inr p'"
      "new_w p' \<le> max 1 inset" "new_h p' \<le> max 1 inset"
      "dest_x p' = (canvas a - new_w p') div 2" "dest_y p' = (canvas a - new_h p') div 2"
    using place_range [OF inset(1) i_max assms(3) width_of_le assms(4) height_of_le] by blast
  have p: "p' = p" using p'(1) r(5) src by simp
  have nw: "new_w p \<le> canvas a" and nh: "new_h p \<le> canvas a"
    using p'(2,3) p inset(2) assms(1) by simp_all
  have "0 \<le> dest_x p" "0 \<le> dest_y p" "dest_x p + new_w p \<le> canvas a"
      "dest_y p + new_h p \<le> canvas a"
    using p'(4,5) p nw nh by simp_all
  moreover have "sint (word_of_int (new_w p) :: 32 word) = new_w p"
      "sint (word_of_int (new_h p) :: 32 word) = new_h p"
      "sint (word_of_int (canvas a) :: 32 word) = canvas a"
    using r(2,3,6,7,8,9) by (simp_all add: sint_side)
  ultimately show ?thesis unfolding r(10) by simp
qed

theorem paste_within_canvas_witness:
  "\<exists>bg im px py.
      compose example_getcolor example_args example_world = Inr (AlphaComposite bg im px py)
    \<and> width_of bg = 1024 \<and> height_of bg = 1024 \<and> 0 \<le> px \<and> 0 \<le> py
    \<and> px + width_of im \<le> 1024 \<and> py + height_of im \<le> 1024"
proof -
  have h1: "1 \<le> canvas example_args" by (simp add: example_args_def)
  have h2: "files example_world (input_path example_args) = Some (Image (Pixels ''RGB'' 500 300 0))"
    by (simp add: example_args_def example_world_def)
  have h3: "1 \<le> width_of (Pixels ''RGB'' 500 300 0)" by simp
  have h4: "1 \<le> height_of (Pixels ''RGB'' 500 300 0)" by simp
  show ?thesis unfolding example_compose using paste_within_canvas [OF h1 h2 h3 h4 example_compose]
    by (simp add: example_args_def)
qed

end
